theory Spec2Isabelle
  imports Main
begin

section \<open>Text and the library tables the program relies on\<close>

text \<open>
  A Python \<open>str\<close> is a sequence of Unicode code points. It is modelled as a list of
  natural numbers, one per code point, so that \<open>length\<close> counts what Python's \<open>len\<close> counts.
\<close>

type_synonym str = "nat list"

text \<open>
  \<open>str.isalnum\<close> is a table of the Python runtime. Its ASCII part and the block
  U+4E00..U+9FA5 of CJK ideographs are fixed here; the rest of the table is the parameter
  \<open>alnum\<close>, so every theorem below holds for each version of the Unicode database.
\<close>

definition uni_isalnum :: "(nat \<Rightarrow> bool) \<Rightarrow> nat \<Rightarrow> bool" where
  "uni_isalnum alnum c =
     (if c < 128 then (48 \<le> c \<and> c \<le> 57) \<or> (65 \<le> c \<and> c \<le> 90) \<or> (97 \<le> c \<and> c \<le> 122)
      else if 0x4E00 \<le> c \<and> c \<le> 0x9FA5 then True
      else alnum c)"

text \<open>A word character of \<open>re\<close> on a \<open>str\<close> pattern: alphanumeric, or the underscore.\<close>

definition is_word :: "(nat \<Rightarrow> bool) \<Rightarrow> nat \<Rightarrow> bool" where
  "is_word alnum c = (uni_isalnum alnum c \<or> c = 0x5F)"

text \<open>
  \<open>str.isspace\<close> for one code point, as \<open>str.strip()\<close> uses it: the white space of the
  Unicode database.
\<close>

definition py_isspace :: "nat \<Rightarrow> bool" where
  "py_isspace c =
     ((0x09 \<le> c \<and> c \<le> 0x0D) \<or> (0x1C \<le> c \<and> c \<le> 0x20) \<or> c = 0x85 \<or> c = 0xA0
      \<or> c = 0x1680 \<or> (0x2000 \<le> c \<and> c \<le> 0x200A) \<or> c = 0x2028 \<or> c = 0x2029
      \<or> c = 0x202F \<or> c = 0x205F \<or> c = 0x3000)"

definition strip :: "str \<Rightarrow> str" where
  "strip s = rev (dropWhile py_isspace (rev (dropWhile py_isspace s)))"

section \<open>Punctuation Normalizer: \<open>convert_punctuation_to_chinese\<close>\<close>

text \<open>
  \<open>punct_map = {ord(a): b for a, b in zip(',.!?:;()[]<>', ...)}\<close>: the two literals of the
  source, code point by code point, zipped in the order in which they are written.
\<close>

definition punct_map :: "(nat \<times> nat) list" where
  "punct_map =
     zip [0x2C, 0x2E, 0x21, 0x3F, 0x3A, 0x3B, 0x28, 0x29, 0x5B, 0x5D, 0x3C, 0x3E]
         [0xFF0C, 0x3002, 0xFF01, 0xFF1F, 0xFF1A, 0xFF1B, 0xFF08, 0xFF09, 0x3010, 0x3011,
          0x300B, 0x300A]"

text \<open>\<open>str.translate\<close>: a code point with an entry is replaced, any other is kept.\<close>

definition translate :: "(nat \<times> nat) list \<Rightarrow> str \<Rightarrow> str" where
  "translate tbl s = map (\<lambda>c. case map_of tbl c of None \<Rightarrow> c | Some d \<Rightarrow> d) s"

text \<open>
  The pattern has two alternatives: a straight double quote U+0022 behind a code point of
  the class (U+4E00..U+9FFF, or one of the six full-width marks U+FF0C, U+3002, U+FF01,
  U+FF1F, U+FF1B, U+FF1A), or a straight double quote with the assertion "not a word
  boundary" on its left and on its right. Either way it consumes exactly one code point.
  Whether it matches at a position depends on the code point to the left and the one to
  the right in the searched text (\<open>None\<close> at either end of the text).
\<close>

definition lookbehind_class :: "nat \<Rightarrow> bool" where
  "lookbehind_class c =
     ((0x4E00 \<le> c \<and> c \<le> 0x9FFF) \<or> c = 0xFF0C \<or> c = 0x3002 \<or> c = 0xFF01 \<or> c = 0xFF1F
      \<or> c = 0xFF1B \<or> c = 0xFF1A)"

definition word_at :: "(nat \<Rightarrow> bool) \<Rightarrow> nat option \<Rightarrow> bool" where
  "word_at alnum x = (case x of None \<Rightarrow> False | Some c \<Rightarrow> is_word alnum c)"

text \<open>Not a word boundary between two neighbours: both are word characters, or neither is.\<close>

definition non_boundary :: "(nat \<Rightarrow> bool) \<Rightarrow> nat option \<Rightarrow> nat option \<Rightarrow> bool" where
  "non_boundary alnum prev nxt = (word_at alnum prev = word_at alnum nxt)"

definition quote_pattern :: "(nat \<Rightarrow> bool) \<Rightarrow> nat option \<Rightarrow> nat \<Rightarrow> nat option \<Rightarrow> bool" where
  "quote_pattern alnum prev c nxt =
     (((case prev of None \<Rightarrow> False | Some b \<Rightarrow> lookbehind_class b) \<and> c = 0x22)
      \<or> (non_boundary alnum prev (Some c) \<and> c = 0x22 \<and> non_boundary alnum (Some c) nxt))"

text \<open>
  The replacement callback \<open>rep\<close> keeps its counter in an attribute of its own function
  object. Function objects live in a store: a list of attribute dictionaries, indexed by
  address. \<open>def rep\<close> allocates a new object with no attribute.
\<close>

type_synonym attrs = "string \<rightharpoonup> int"
type_synonym heap = "attrs list"

definition getattr :: "heap \<Rightarrow> nat \<Rightarrow> string \<Rightarrow> int \<Rightarrow> int" where
  "getattr h a name dflt =
     (if a < length h then (case (h ! a) name of None \<Rightarrow> dflt | Some v \<Rightarrow> v) else dflt)"

definition setattr :: "heap \<Rightarrow> nat \<Rightarrow> string \<Rightarrow> int \<Rightarrow> heap" where
  "setattr h a name v = (if a < length h then h[a := (h ! a)(name \<mapsto> v)] else h)"

definition def_function :: "heap \<Rightarrow> nat \<times> heap" where
  "def_function h = (length h, h @ [Map.empty])"

definition rep :: "nat \<Rightarrow> heap \<Rightarrow> nat \<times> heap" where
  "rep self h =
     (let idx = getattr h self ''idx'' 0 + 1;
          h' = setattr h self ''idx'' idx
      in (if idx mod 2 \<noteq> 0 then 0x300C else 0x300D, h'))"

text \<open>
  \<open>re.sub(pattern, rep, text)\<close>: the text is scanned from left to right; at a match the
  callback is called and its result written, elsewhere the code point is copied. The
  lookbehind and the lookahead read the searched text, not the output.
\<close>

fun re_sub_quotes :: "(nat \<Rightarrow> bool) \<Rightarrow> nat \<Rightarrow> nat option \<Rightarrow> str \<Rightarrow> heap \<Rightarrow> str \<times> heap" where
  "re_sub_quotes alnum self prev [] h = ([], h)"
| "re_sub_quotes alnum self prev (c # cs) h =
     (if quote_pattern alnum prev c (case cs of [] \<Rightarrow> None | d # _ \<Rightarrow> Some d)
      then (let (m, h1) = rep self h;
                (out, h2) = re_sub_quotes alnum self (Some c) cs h1
            in (m # out, h2))
      else (let (out, h2) = re_sub_quotes alnum self (Some c) cs h
            in (c # out, h2)))"

definition convert_punctuation_to_chinese_st ::
  "(nat \<Rightarrow> bool) \<Rightarrow> str \<Rightarrow> heap \<Rightarrow> str \<times> heap" where
  "convert_punctuation_to_chinese_st alnum s h =
     (let s1 = translate punct_map s;
          (self, h1) = def_function h
      in re_sub_quotes alnum self None s1 h1)"

text \<open>The function as a caller sees it, run in a store with no object yet.\<close>

definition convert_punctuation_to_chinese :: "(nat \<Rightarrow> bool) \<Rightarrow> str \<Rightarrow> str" where
  "convert_punctuation_to_chinese alnum s = fst (convert_punctuation_to_chinese_st alnum s [])"

section \<open>Chapter Boundary Trimmer: \<open>clean_chapter_content\<close>\<close>

text \<open>
  \<open>str.splitlines()\<close>: a line ends at a line boundary (LF, VT, FF, CR, FS, GS, RS, NEL,
  LS, PS, and CR LF taken as one); the boundary is not part of the line, and a text that
  ends with a boundary has no empty last line.
\<close>

definition is_linebreak :: "nat \<Rightarrow> bool" where
  "is_linebreak c =
     ((0x0A \<le> c \<and> c \<le> 0x0D) \<or> (0x1C \<le> c \<and> c \<le> 0x1E) \<or> c = 0x85 \<or> c = 0x2028
      \<or> c = 0x2029)"

fun splitlines :: "str \<Rightarrow> str list" where
  "splitlines [] = []"
| "splitlines (c # cs) =
     (if is_linebreak c then
        [] # (case cs of
                [] \<Rightarrow> splitlines cs
              | d # ds \<Rightarrow> if c = 0x0D \<and> d = 0x0A then splitlines ds else splitlines cs)
      else (case splitlines cs of [] \<Rightarrow> [[c]] | l # ls \<Rightarrow> (c # l) # ls))"

text \<open>\<open>sep.join(parts)\<close>.\<close>

fun join :: "str \<Rightarrow> str list \<Rightarrow> str" where
  "join sep [] = []"
| "join sep [l] = l"
| "join sep (l # m # ls) = l @ sep @ join sep (m # ls)"

text \<open>
  \<open>re.search\<close> with the chapter-end pattern of three alternatives: the word U+672C U+7AE0
  U+5B8C with an optional U+FF08 in front, the word U+672C U+7AE0 U+7ED3 U+675F, and the
  first word followed by U+FF09. It succeeds when some alternative matches at some position.
\<close>

definition literal_at :: "str \<Rightarrow> str \<Rightarrow> bool" where
  "literal_at lit s = (take (length lit) s = lit)"

definition end_marker_at :: "str \<Rightarrow> bool" where
  "end_marker_at s =
     (literal_at [0xFF08, 0x672C, 0x7AE0, 0x5B8C] s \<or> literal_at [0x672C, 0x7AE0, 0x5B8C] s
      \<or> literal_at [0x672C, 0x7AE0, 0x7ED3, 0x675F] s
      \<or> literal_at [0x672C, 0x7AE0, 0x5B8C, 0xFF09] s)"

fun re_search_end_marker :: "str \<Rightarrow> bool" where
  "re_search_end_marker [] = end_marker_at []"
| "re_search_end_marker (c # cs) = (end_marker_at (c # cs) \<or> re_search_end_marker cs)"

text \<open>
  The first loop, \<open>for i, l in enumerate(lines)\<close>: \<open>i\<close> is the index of the first of the
  lines not yet visited. The parameter \<open>similar a b\<close> stands for
  \<open>SequenceMatcher(None, a, b).ratio() > 0.8\<close>, a function of the standard library.
\<close>

fun scan_start :: "(str \<Rightarrow> str \<Rightarrow> bool) \<Rightarrow> str \<Rightarrow> nat \<Rightarrow> str list \<Rightarrow> nat \<Rightarrow> nat" where
  "scan_start similar title i [] start = start"
| "scan_start similar title i (l # ls) start =
     (if similar (strip l) title then scan_start similar title (i + 1) ls (i + 1) else start)"

text \<open>
  The second loop, \<open>for i in range(len(lines) - 1, start - 1, -1)\<close>: the counter of the
  model is \<open>i + 1\<close>, so that it stays a natural number; the loop is over when \<open>i < start\<close>.
\<close>

fun scan_end :: "str list \<Rightarrow> nat \<Rightarrow> nat \<Rightarrow> nat \<Rightarrow> nat" where
  "scan_end lines start 0 end_idx = end_idx"
| "scan_end lines start (Suc i) end_idx =
     (if i < start then end_idx
      else if re_search_end_marker (lines ! i) then scan_end lines start i i
      else end_idx)"

definition clean_chapter_content :: "(str \<Rightarrow> str \<Rightarrow> bool) \<Rightarrow> str \<Rightarrow> str \<Rightarrow> str" where
  "clean_chapter_content similar content chapter_title =
     (let lines = splitlines content in
      (if lines = [] then content
       else
        (let start = scan_start similar chapter_title 0 lines 0;
             end_idx = scan_end lines start (length lines) (length lines)
         in join [0x0A] (take (end_idx - start) (drop start lines)))))"

section \<open>Exceptions and console output\<close>

text \<open>
  An exception is a value with its message, the text that \<open>str(e)\<close> gives.
  \<open>Exception m\<close> is an instance of the class \<open>Exception\<close> or of one of its subclasses:
  the handlers of the program, all written \<open>except Exception\<close>, catch it.
  \<open>BaseException m\<close> is an instance of \<open>BaseException\<close> that is not an instance of
  \<open>Exception\<close> (\<open>KeyboardInterrupt\<close>, \<open>SystemExit\<close>, \<open>GeneratorExit\<close>): no handler of
  the program catches it. A call that can raise returns \<open>exn + 'a\<close>, with \<open>Inl\<close> for the
  exception.
\<close>

datatype exn = Exception str | BaseException str

text \<open>
  \<open>print(s, end=e)\<close> writes \<open>s\<close> followed by \<open>e\<close> (a line feed by default) to the
  standard output, and that write can raise: the stream is closed or broken, or the
  encoding of the console has no code for a character. The standard output is given by the
  exception that each written text raises, if any. What has been printed is not recorded.
\<close>

type_synonym stdout = "str \<Rightarrow> exn option"

definition py_print :: "stdout \<Rightarrow> str \<Rightarrow> str \<Rightarrow> exn option" where
  "py_print console s end_str = console (s @ end_str)"

section \<open>Correction Service Adapter: \<open>correct_single_text\<close>\<close>

text \<open>
  The correction service is an opaque callable: for a text it raises, or it returns the
  corrected text and the list of its records \<open>(wrong, right, begin, end)\<close>. A result that
  cannot be unpacked into two values raises \<open>ValueError\<close> inside the \<open>try\<close> block: it is
  a case of \<open>Inl (Exception m)\<close>.
\<close>

type_synonym detail = "str \<times> str \<times> int \<times> int"
type_synonym corrector = "str \<Rightarrow> exn + (str \<times> detail list)"

text \<open>
  The handler catches the instances of \<open>Exception\<close> only, and prints the message after
  the four characters U+7EA0 U+9519 U+5F02 U+5E38, a colon and a space, before it returns
  the text it was given; an exception raised by that \<open>print\<close> leaves the function.
\<close>

definition correct_single_text :: "stdout \<Rightarrow> str \<Rightarrow> corrector \<Rightarrow> exn + (str \<times> detail list)" where
  "correct_single_text console s corrector_instance =
     (case corrector_instance s of
        Inr (corrected_text, details) \<Rightarrow> Inr (corrected_text, details)
      | Inl (Exception m) \<Rightarrow>
         (case py_print console ([0x7EA0, 0x9519, 0x5F02, 0x5E38, 0x3A, 0x20] @ m) [0x0A] of
            Some e \<Rightarrow> Inl e
          | None \<Rightarrow> Inr (s, []))
      | Inl (BaseException m) \<Rightarrow> Inl (BaseException m))"

section \<open>Grammar Heuristic Adapter: \<open>check_grammar_with_hanlp\<close>\<close>

record grammar_issue =
  issue_type :: str
  issue_context :: str
  issue_suggestion :: str

text \<open>
  The parser is an opaque callable on a list of sentences; it raises or returns a parse,
  which the rule does not read. A parser that failed to load is \<open>None\<close>.
\<close>

type_synonym 'd parser = "str list \<Rightarrow> exn + 'd"

definition is_sentence_end :: "nat \<Rightarrow> bool" where
  "is_sentence_end c =
     (c = 0x3002 \<or> c = 0xFF01 \<or> c = 0xFF1F \<or> c = 0x21 \<or> c = 0x3F \<or> c = 0xFF1B \<or> c = 0x3B)"

text \<open>\<open>re.split\<close> on the class of sentence ends: one piece more than there are ends.\<close>

fun re_split_sentences :: "str \<Rightarrow> str list" where
  "re_split_sentences [] = [[]]"
| "re_split_sentences (c # cs) =
     (if is_sentence_end c then [] # re_split_sentences cs
      else (case re_split_sentences cs of [] \<Rightarrow> [[c]] | l # ls \<Rightarrow> (c # l) # ls))"

definition missing_verb_issue :: "str \<Rightarrow> grammar_issue" where
  "missing_verb_issue sent =
     \<lparr>issue_type = [0x53EF, 0x80FD, 0x7F3A, 0x5931, 0x52A8, 0x8BCD],
      issue_context = sent,
      issue_suggestion =
        [0x68C0, 0x67E5, 0x22, 0x4E86, 0x22, 0x5B57, 0x524D, 0x9762, 0x662F, 0x5426, 0x7F3A,
         0x5C11, 0x52A8, 0x8BCD, 0x6210, 0x5206]\<rparr>"

text \<open>
  The loop over the sentences; \<open>issues\<close> is the list built so far. The handler in the loop
  catches the instances of \<open>Exception\<close> only and prints the message after the eight
  characters U+53E5 U+6CD5 U+5206 U+6790 U+5355 U+53E5 U+5F02 U+5E38, a colon and a space,
  before it goes on with the next sentence; an exception raised by that \<open>print\<close> leaves the
  function.
\<close>

fun grammar_loop ::
  "stdout \<Rightarrow> 'd parser \<Rightarrow> str list \<Rightarrow> grammar_issue list \<Rightarrow> exn + grammar_issue list" where
  "grammar_loop console parser [] issues = Inr issues"
| "grammar_loop console parser (sent # rest) issues =
     (if \<not> (3 \<le> length sent \<and> length sent \<le> 400) then grammar_loop console parser rest issues
      else (case parser [sent] of
              Inl (Exception m) \<Rightarrow>
                (case py_print console
                        ([0x53E5, 0x6CD5, 0x5206, 0x6790, 0x5355, 0x53E5, 0x5F02, 0x5E38, 0x3A, 0x20] @ m)
                        [0x0A] of
                   Some e \<Rightarrow> Inl e
                 | None \<Rightarrow> grammar_loop console parser rest issues)
            | Inl (BaseException m) \<Rightarrow> Inl (BaseException m)
            | Inr dep_result \<Rightarrow>
                (if 0x4E86 \<in> set sent
                 then grammar_loop console parser rest (issues @ [missing_verb_issue sent])
                 else grammar_loop console parser rest issues)))"

text \<open>
  The handler around the split is not a branch of the model: \<open>re.split\<close> does not raise
  on a \<open>str\<close>.
\<close>

definition check_grammar_with_hanlp ::
  "stdout \<Rightarrow> str \<Rightarrow> 'd parser option \<Rightarrow> exn + grammar_issue list" where
  "check_grammar_with_hanlp console s parser =
     (case parser of
        None \<Rightarrow> Inr []
      | Some p \<Rightarrow>
         (let sentences = re_split_sentences s;
              sentences = map strip (filter (\<lambda>x. length (strip x) > 0) sentences)
          in grammar_loop console p sentences []))"

section \<open>File Processor: \<open>process_file\<close>\<close>

text \<open>
  A path is a directory and a file name: \<open>os.path.basename\<close> gives the name, and
  \<open>Path(output_dir) / name\<close> is the pair of the two. The world holds what a read of each
  path gives (the text, or the exception raised); for each path and text, whether the
  write of that text to that path raises, and then which exception and what a later read
  of the path gives (the file as it was, an empty file, a part of the text); the standard
  output; and the store of function objects.
\<close>

type_synonym path = "str \<times> str"

record world =
  fs :: "path \<Rightarrow> exn + str"
  write_error :: "path \<Rightarrow> str \<Rightarrow> (exn \<times> (exn + str)) option"
  print_error :: stdout
  objs :: heap

definition basename :: "path \<Rightarrow> str" where
  "basename p = snd p"

definition read_text :: "world \<Rightarrow> path \<Rightarrow> exn + str" where
  "read_text w p = fs w p"

text \<open>
  A procedure returns the exception that left it, or \<open>None\<close> when it returned normally,
  together with the world it leaves behind. A write that raises changes no path but its
  own.
\<close>

definition write_text :: "world \<Rightarrow> path \<Rightarrow> str \<Rightarrow> exn option \<times> world" where
  "write_text w p s =
     (case write_error w p s of
        Some (e, left) \<Rightarrow> (Some e, w\<lparr>fs := (fs w)(p := left)\<rparr>)
      | None \<Rightarrow> (None, w\<lparr>fs := (fs w)(p := Inr s)\<rparr>))"

text \<open>
  \<open>os.path.splitext(name)[0]\<close> on a name without separator: the name up to its last
  dot, unless only dots come before that dot.
\<close>

definition splitext_root :: "str \<Rightarrow> str" where
  "splitext_root p =
     (case dropWhile (\<lambda>c. c \<noteq> 0x2E) (rev p) of
        [] \<Rightarrow> p
      | d # r \<Rightarrow> if list_ex (\<lambda>c. c \<noteq> 0x2E) r then rev r else p)"

text \<open>\<open>s.split('_', 1)[-1]\<close>: what follows the first underscore, or all of \<open>s\<close>.\<close>

definition split_underscore_last :: "str \<Rightarrow> str" where
  "split_underscore_last s =
     (case dropWhile (\<lambda>c. c \<noteq> 0x5F) s of [] \<Rightarrow> s | u # r \<Rightarrow> r)"

text \<open>\<open>str(n)\<close> for a natural number, in decimal.\<close>

fun str_of_nat :: "nat \<Rightarrow> str" where
  "str_of_nat n = (if n < 10 then [0x30 + n] else str_of_nat (n div 10) @ [0x30 + n mod 10])"

declare str_of_nat.simps [simp del]

definition report_prefix :: str where
  "report_prefix = [0x6821, 0x5BF9, 0x62A5, 0x544A, 0x5F]"

definition spelling_line :: "nat \<times> detail \<Rightarrow> str" where
  "spelling_line x =
     (case x of (i, (w, r, b, e)) \<Rightarrow>
        str_of_nat i @ [0x2E, 0x20] @ w @ [0x20, 0x20, 0x2192, 0x20, 0x20] @ r @ [0x0A])"

definition grammar_line :: "nat \<times> grammar_issue \<Rightarrow> str" where
  "grammar_line x =
     (case x of (i, g) \<Rightarrow>
        str_of_nat i @ [0x2E, 0x20] @ issue_type g @ [0x20, 0x20, 0x5EFA, 0x8BAE, 0xFF1A]
        @ issue_suggestion g @ [0x20, 0x20, 0x53E5, 0xFF1A] @ issue_context g @ [0x0A])"

text \<open>
  All that is written to the report, in the order of the \<open>f.write\<close> calls. The report is
  opened, written and closed as one write of this text.
\<close>

definition report_text :: "str \<Rightarrow> detail list \<Rightarrow> grammar_issue list \<Rightarrow> str" where
  "report_text name err_details grammar_issues =
     [0x6587, 0x4EF6, 0xFF1A] @ name @ [0x0A] @ replicate 50 0x3D @ [0x0A]
     @ (if err_details \<noteq> []
        then [0x5B, 0x62FC, 0x5199, 0x5D, 0x20, 0x5171, 0x20] @ str_of_nat (length err_details)
             @ [0x20, 0x5904, 0x0A] @ concat (map spelling_line (enumerate 1 err_details))
        else [])
     @ (if grammar_issues \<noteq> []
        then [0x5B, 0x8BED, 0x6CD5, 0x5D, 0x20, 0x5171, 0x20]
             @ str_of_nat (length grammar_issues)
             @ [0x20, 0x5904, 0x0A] @ concat (map grammar_line (enumerate 1 grammar_issues))
        else [])"

text \<open>
  The texts printed by \<open>process_file\<close>: the name after U+6B63 U+5728 U+5904 U+7406, a
  colon and a space, when it starts; the message of the exception after U+8BFB U+53D6
  U+5931 U+8D25, a colon and a space, in the handler of the read; the name of the report
  after two spaces, U+62A5 U+544A, a colon and a space, when a report has been written;
  and a fixed text when none was needed. The handler of the read catches the instances of
  \<open>Exception\<close> only. Nothing else is guarded: an exception raised by a \<open>print\<close>, by one of
  the two adapters or by a write leaves \<open>process_file\<close>, with the world as it is then.
\<close>

definition process_file ::
  "(nat \<Rightarrow> bool) \<Rightarrow> (str \<Rightarrow> str \<Rightarrow> bool) \<Rightarrow> world \<Rightarrow> path \<Rightarrow> str \<Rightarrow> corrector \<Rightarrow> 'd parser option
     \<Rightarrow> exn option \<times> world" where
  "process_file alnum similar w input_file output_dir corrector_instance parser =
     (let name = basename input_file in
      (case py_print (print_error w) ([0x6B63, 0x5728, 0x5904, 0x7406, 0x3A, 0x20] @ name) [0x0A] of
         Some e \<Rightarrow> (Some e, w)
       | None \<Rightarrow>
          (case read_text w input_file of
             Inl (Exception m) \<Rightarrow>
               (py_print (print_error w) ([0x8BFB, 0x53D6, 0x5931, 0x8D25, 0x3A, 0x20] @ m) [0x0A], w)
           | Inl (BaseException m) \<Rightarrow> (Some (BaseException m), w)
           | Inr txt \<Rightarrow>
              (let chapter_title = split_underscore_last (splitext_root name);
                   cleaned = clean_chapter_content similar txt chapter_title;
                   (converted, h) = convert_punctuation_to_chinese_st alnum cleaned (objs w);
                   w0 = w\<lparr>objs := h\<rparr>
               in (case correct_single_text (print_error w0) converted corrector_instance of
                     Inl e \<Rightarrow> (Some e, w0)
                   | Inr (corrected, err_details) \<Rightarrow>
                      (case check_grammar_with_hanlp (print_error w0) corrected parser of
                         Inl e \<Rightarrow> (Some e, w0)
                       | Inr grammar_issues \<Rightarrow>
                          (let out_file = (output_dir, name) in
                           (case write_text w0 out_file corrected of
                              (Some e, w1) \<Rightarrow> (Some e, w1)
                            | (None, w1) \<Rightarrow>
                               (if err_details \<noteq> [] \<or> grammar_issues \<noteq> []
                                then
                                 (let report_file = (output_dir, report_prefix @ name) in
                                  (case write_text w1 report_file
                                          (report_text name err_details grammar_issues) of
                                     (Some e, w2) \<Rightarrow> (Some e, w2)
                                   | (None, w2) \<Rightarrow>
                                      (py_print (print_error w2)
                                         ([0x20, 0x20, 0x62A5, 0x544A, 0x3A, 0x20] @ basename report_file)
                                         [0x0A], w2)))
                                else
                                 (py_print (print_error w1)
                                    [0x20, 0x20, 0x72B6, 0x6001, 0x3A, 0x20, 0x65E0, 0x9519, 0xFF0C,
                                     0x672A, 0x751F, 0x6210, 0x62A5, 0x544A]
                                    [0x0A], w1))))))))))"

section \<open>Batch Driver: the loop of \<open>main\<close>\<close>




section \<open>Notions used to state the properties\<close>

text \<open>
  The mark written for the \<open>k\<close>-th replacement of a call, counted from 0: the opening mark
  U+300C, then the closing mark U+300D, and so on.
\<close>

definition mark :: "nat \<Rightarrow> nat" where
  "mark k = (if even k then 0x300C else 0x300D)"

text \<open>The scan of \<open>re.sub\<close> with the counter as a number instead of a store.\<close>

fun scan_quotes :: "(nat \<Rightarrow> bool) \<Rightarrow> nat option \<Rightarrow> nat \<Rightarrow> str \<Rightarrow> str" where
  "scan_quotes alnum prev k [] = []"
| "scan_quotes alnum prev k (c # cs) =
     (if quote_pattern alnum prev c (case cs of [] \<Rightarrow> None | d # _ \<Rightarrow> Some d)
      then mark k # scan_quotes alnum (Some c) (Suc k) cs
      else c # scan_quotes alnum (Some c) k cs)"

text \<open>
  The replacement condition, by position: the code point at \<open>i\<close> is a straight double
  quote, and either the code point just before it is in the class of the lookbehind, or
  neither the code point just before it nor the one just after it is a word character
  (there is none at the ends of the text).
\<close>

definition qualifies :: "(nat \<Rightarrow> bool) \<Rightarrow> str \<Rightarrow> nat \<Rightarrow> bool" where
  "qualifies alnum t i =
     (i < length t \<and> t ! i = 0x22 \<and>
      ((0 < i \<and> lookbehind_class (t ! (i - 1)))
       \<or> (\<not> (0 < i \<and> is_word alnum (t ! (i - 1)))
          \<and> \<not> (i + 1 < length t \<and> is_word alnum (t ! (i + 1))))))"

definition qualifying_before :: "(nat \<Rightarrow> bool) \<Rightarrow> str \<Rightarrow> nat \<Rightarrow> nat" where
  "qualifying_before alnum t i = length (filter (qualifies alnum t) [0..<i])"

text \<open>The store after a sequence of earlier calls of the normalizer.\<close>

fun after_calls :: "(nat \<Rightarrow> bool) \<Rightarrow> str list \<Rightarrow> heap \<Rightarrow> heap" where
  "after_calls alnum [] h = h"
| "after_calls alnum (s # ss) h =
     after_calls alnum ss (snd (convert_punctuation_to_chinese_st alnum s h))"

text \<open>
  Instances of the parameters for concrete inputs. \<open>no_alnum\<close> is a table with no entry
  beyond the fixed part; it is used on texts whose code points all lie in the fixed part.
\<close>

definition no_alnum :: "nat \<Rightarrow> bool" where
  "no_alnum c = False"


text \<open>
  The hypothesis of the claim about text that is already trimmed: no line of the content is
  similar to the title, and no line matches the chapter-end pattern.
\<close>

definition no_echo_no_marker :: "(str \<Rightarrow> str \<Rightarrow> bool) \<Rightarrow> str \<Rightarrow> str \<Rightarrow> bool" where
  "no_echo_no_marker similar content title =
     list_all (\<lambda>l. \<not> similar (strip l) title \<and> \<not> re_search_end_marker l) (splitlines content)"

text \<open>
  \<open>same_text\<close> is an instance of \<open>similar\<close> for concrete inputs: it agrees with the ratio
  test on equal texts (ratio 1) and on texts with no code point in common (ratio 0), the
  only pairs it is used on.
\<close>

definition same_text :: "str \<Rightarrow> str \<Rightarrow> bool" where
  "same_text a b = (a = b)"

text \<open>
  The text that \<open>process_file\<close> hands to the correction service for a file of the given
  name and content: the content trimmed with the title taken from the name, then normalized.
\<close>

definition normalized :: "(nat \<Rightarrow> bool) \<Rightarrow> (str \<Rightarrow> str \<Rightarrow> bool) \<Rightarrow> str \<Rightarrow> str \<Rightarrow> str" where
  "normalized alnum similar name raw =
     convert_punctuation_to_chinese alnum
       (clean_chapter_content similar raw (split_underscore_last (splitext_root name)))"

text \<open>
  Instances of the services and of the world for concrete inputs: a standard output that
  never raises and one that always does; a corrector that raises an instance of
  \<open>Exception\<close>, one that raises \<open>KeyboardInterrupt\<close>, one that returns its input with no
  record and one that returns its input with one record; a parser that raises
  \<open>KeyboardInterrupt\<close>; and a world given by the files that can be read and the paths
  that cannot be written, where no \<open>print\<close> raises and a write that raises leaves the
  file as it was.
\<close>

definition quiet_stdout :: stdout where
  "quiet_stdout s = None"

definition broken_stdout :: stdout where
  "broken_stdout s = Some (Exception [0x70, 0x69, 0x70, 0x65])"

definition raising_corrector :: corrector where
  "raising_corrector s = Inl (Exception [0x62, 0x6F, 0x6F, 0x6D])"

definition interrupted_corrector :: corrector where
  "interrupted_corrector s = Inl (BaseException [0x73, 0x74, 0x6F, 0x70])"

definition echo_corrector :: corrector where
  "echo_corrector s = Inr (s, [])"

definition flagging_corrector :: corrector where
  "flagging_corrector s = Inr (s, [([0x61], [0x62], 0, 1)])"

definition interrupted_parser :: "unit parser" where
  "interrupted_parser ss = Inl (BaseException [0x73, 0x74, 0x6F, 0x70])"

definition sample_fs :: "(path \<times> str) list \<Rightarrow> path \<Rightarrow> exn + str" where
  "sample_fs files p =
     (case map_of files p of
        None \<Rightarrow> Inl (Exception [0x6E, 0x6F, 0x6E, 0x65])
      | Some s \<Rightarrow> Inr s)"

definition sample_world :: "(path \<times> str) list \<Rightarrow> path list \<Rightarrow> world" where
  "sample_world files locked =
     \<lparr>fs = sample_fs files,
      write_error = (\<lambda>p s. if p \<in> set locked
                            then Some (Exception [0x64, 0x65, 0x6E, 0x69, 0x65, 0x64], sample_fs files p)
                            else None),
      print_error = quiet_stdout,
      objs = []\<rparr>"

section \<open>Properties of the Punctuation Normalizer\<close>

lemma rep_fst: "self < length h \<Longrightarrow> getattr h self ''idx'' 0 = int k \<Longrightarrow> fst (rep self h) = mark k"
  by (simp add: rep_def mark_def Let_def) presburger

lemma rep_snd: "self < length h \<Longrightarrow> getattr h self ''idx'' 0 = int k \<Longrightarrow>
   length (snd (rep self h)) = length h \<and> getattr (snd (rep self h)) self ''idx'' 0 = int (Suc k)"
  by (simp add: rep_def Let_def getattr_def setattr_def)

lemma re_sub_quotes_out:
  "self < length h \<Longrightarrow> getattr h self ''idx'' 0 = int k \<Longrightarrow>
   fst (re_sub_quotes alnum self prev cs h) = scan_quotes alnum prev k cs"
proof (induction cs arbitrary: prev h k)
  case Nil
  then show ?case by simp
next
  case (Cons c cs)
  show ?case
  proof (cases "quote_pattern alnum prev c (case cs of [] \<Rightarrow> None | d # _ \<Rightarrow> Some d)")
    case True
    obtain m h1 where r: "rep self h = (m, h1)" by (cases "rep self h")
    from rep_fst[OF Cons.prems] r have m: "m = mark k" by simp
    from rep_snd[OF Cons.prems] r have h1: "self < length h1" "getattr h1 self ''idx'' 0 = int (Suc k)"
      using Cons.prems(1) by simp_all
    from Cons.IH[OF h1] True r m show ?thesis
      by (simp add: case_prod_unfold)
  next
    case False
    with Cons.IH[OF Cons.prems] show ?thesis
      by (simp add: case_prod_unfold)
  qed
qed

lemma convert_st_out:
  "fst (convert_punctuation_to_chinese_st alnum s h) = scan_quotes alnum None 0 (translate punct_map s)"
proof -
  have "getattr (h @ [Map.empty]) (length h) ''idx'' 0 = int 0"
    by (simp add: getattr_def)
  moreover have "length h < length (h @ [Map.empty])" by simp
  ultimately show ?thesis
    unfolding convert_punctuation_to_chinese_st_def def_function_def Let_def
    by (simp add: re_sub_quotes_out)
qed

lemma is_word_quote: "\<not> is_word alnum 0x22"
  by (simp add: is_word_def uni_isalnum_def)

lemma qualifies_here:
  "qualifies alnum (pre @ c # cs) (length pre) =
   quote_pattern alnum (if pre = [] then None else Some (last pre)) c
     (case cs of [] \<Rightarrow> None | d # _ \<Rightarrow> Some d)"
proof (cases "c = 0x22")
  case False
  then show ?thesis by (simp add: qualifies_def quote_pattern_def)
next
  case c: True
  have prev: "0 < length pre \<Longrightarrow> (pre @ c # cs) ! (length pre - 1) = last pre"
    by (cases pre rule: rev_cases) (simp_all add: nth_append)
  have nxt: "cs \<noteq> [] \<Longrightarrow> (pre @ c # cs) ! (length pre + 1) = hd cs"
    by (cases cs) (simp_all add: nth_append)
  show ?thesis
  proof (cases "pre = []")
    case True
    then show ?thesis using c is_word_quote[of alnum]
      by (cases cs) (simp_all add: qualifies_def quote_pattern_def non_boundary_def word_at_def)
  next
    case False
    then show ?thesis using c is_word_quote[of alnum] prev nxt
      by (cases cs) (simp_all add: qualifies_def quote_pattern_def non_boundary_def word_at_def)
  qed
qed


lemma scan_quotes_length: "length (scan_quotes alnum prev k cs) = length cs"
  by (induction cs arbitrary: prev k) simp_all

lemma quote_pattern_quote: "quote_pattern alnum prev c nxt \<Longrightarrow> c = 0x22"
  by (auto simp: quote_pattern_def)

lemma upt_filter_step:
  "length (filter P [a..<a + Suc j]) = (if P a then 1 else 0) + length (filter P [Suc a..<Suc a + j])"
proof -
  have "[a..<a + Suc j] = a # [Suc a..<Suc a + j]"
    by (subst upt_rec) simp
  then show ?thesis by (simp del: upt_Suc)
qed

lemma scan_quotes_nth:
  "prev = (if pre = [] then None else Some (last pre)) \<Longrightarrow> i < length cs \<Longrightarrow>
   scan_quotes alnum prev k cs ! i =
     (if qualifies alnum (pre @ cs) (length pre + i)
      then mark (k + length (filter (qualifies alnum (pre @ cs)) [length pre..<length pre + i]))
      else cs ! i)"
proof (induction cs arbitrary: pre prev k i)
  case Nil
  then show ?case by simp
next
  case (Cons c cs)
  have here: "qualifies alnum (pre @ c # cs) (length pre) =
      quote_pattern alnum prev c (case cs of [] \<Rightarrow> None | d # _ \<Rightarrow> Some d)"
    using Cons.prems(1) by (simp only: qualifies_here)
  show ?case
  proof (cases i)
    case 0
    then show ?thesis using here by simp
  next
    case (Suc j)
    then have j: "j < length cs" using Cons.prems(2) by simp
    have p: "Some c = (if pre @ [c] = [] then None else Some (last (pre @ [c])))" by simp
    note ih = Cons.IH[OF p j]
    have eq: "(pre @ [c]) @ cs = pre @ c # cs" by simp
    have len: "length (pre @ [c]) = Suc (length pre)" by simp
    let ?Q = "qualifies alnum (pre @ c # cs)"
    let ?m = "length (filter ?Q [Suc (length pre)..<Suc (length pre) + j])"
    have f: "length (filter ?Q [length pre..<length pre + Suc j]) = (if ?Q (length pre) then 1 else 0) + ?m"
      by (rule upt_filter_step)
    have idx: "length pre + i = Suc (length pre) + j" using Suc by simp
    have ihk: "scan_quotes alnum (Some c) k' cs ! j =
       (if ?Q (Suc (length pre) + j) then mark (k' + ?m) else cs ! j)" for k'
      using ih[of k'] unfolding eq len .
    show ?thesis
    proof (cases "?Q (length pre)")
      case True
      then have "scan_quotes alnum prev k (c # cs) ! i = scan_quotes alnum (Some c) (Suc k) cs ! j"
        using here Suc by simp
      also have "\<dots> = (if ?Q (Suc (length pre) + j) then mark (Suc k + ?m) else cs ! j)"
        by (rule ihk)
      also have "\<dots> = (if ?Q (length pre + i) then mark (k + length (filter ?Q [length pre..<length pre + i])) else (c # cs) ! i)"
        unfolding idx using f True Suc by (simp del: upt_Suc)
      finally show ?thesis .
    next
      case False
      then have "scan_quotes alnum prev k (c # cs) ! i = scan_quotes alnum (Some c) k cs ! j"
        using here Suc by simp
      also have "\<dots> = (if ?Q (Suc (length pre) + j) then mark (k + ?m) else cs ! j)"
        by (rule ihk)
      also have "\<dots> = (if ?Q (length pre + i) then mark (k + length (filter ?Q [length pre..<length pre + i])) else (c # cs) ! i)"
        unfolding idx using f False Suc by (simp del: upt_Suc)
      finally show ?thesis .
    qed
  qed
qed

lemma scan_quotes_count:
  "prev = (if pre = [] then None else Some (last pre)) \<Longrightarrow>
   n = length (filter (qualifies alnum (pre @ cs)) [length pre..<length pre + length cs]) \<Longrightarrow>
   count_list (scan_quotes alnum prev k cs) 0x300C
     = count_list cs 0x300C + (if even k then (n + 1) div 2 else n div 2) \<and>
   count_list (scan_quotes alnum prev k cs) 0x300D
     = count_list cs 0x300D + (if even k then n div 2 else (n + 1) div 2)"
proof (induction cs arbitrary: pre prev k n)
  case Nil
  then show ?case by simp
next
  case (Cons c cs)
  have here: "qualifies alnum (pre @ c # cs) (length pre) =
      quote_pattern alnum prev c (case cs of [] \<Rightarrow> None | d # _ \<Rightarrow> Some d)"
    using Cons.prems(1) by (simp only: qualifies_here)
  have p: "Some c = (if pre @ [c] = [] then None else Some (last (pre @ [c])))" by simp
  define n' where "n' = length (filter (qualifies alnum (pre @ c # cs)) [Suc (length pre)..<Suc (length pre) + length cs])"
  have n'eq: "n' = length (filter (qualifies alnum ((pre @ [c]) @ cs)) [length (pre @ [c])..<length (pre @ [c]) + length cs])"
    by (simp add: n'_def)
  note ih = Cons.IH[OF p n'eq]
  have n: "n = (if qualifies alnum (pre @ c # cs) (length pre) then 1 else 0) + n'"
    using Cons.prems(2) upt_filter_step[of "qualifies alnum (pre @ c # cs)" "length pre" "length cs"]
    by (simp add: n'_def del: upt_Suc)
  show ?case
  proof (cases "quote_pattern alnum prev c (case cs of [] \<Rightarrow> None | d # _ \<Rightarrow> Some d)")
    case True
    then have c: "c = 0x22" by (rule quote_pattern_quote)
    from True here n have n1: "n = Suc n'" by simp
    show ?thesis using ih[of "Suc k"] True c n1
      by (simp add: mark_def)
  next
    case False
    from False here n have n1: "n = n'" by simp
    show ?thesis using ih[of k] False n1 by auto
  qed
qed

lemma translate_length: "length (translate tbl s) = length s"
  by (simp add: translate_def)

lemma translate_count_mark:
  "m = 0x300C \<or> m = 0x300D \<Longrightarrow> count_list (translate punct_map s) m = count_list s m"
proof (induction s)
  case Nil
  then show ?case by (simp add: translate_def)
next
  case (Cons c s)
  then have ih: "count_list (map (\<lambda>c. case map_of punct_map c of None \<Rightarrow> c | Some d \<Rightarrow> d) s) m = count_list s m"
    by (simp add: translate_def)
  have "((case map_of punct_map c of None \<Rightarrow> c | Some d \<Rightarrow> d) = m) = (c = m)"
    using Cons.prems by (auto simp: punct_map_def)
  with ih show ?case by (simp add: translate_def)
qed

lemma convert_scan:
  "convert_punctuation_to_chinese alnum s = scan_quotes alnum None 0 (translate punct_map s)"
  by (simp add: convert_punctuation_to_chinese_def convert_st_out)

lemma convert_nth:
  assumes "i < length s"
  shows "convert_punctuation_to_chinese alnum s ! i =
     (if qualifies alnum (translate punct_map s) i
      then mark (qualifying_before alnum (translate punct_map s) i)
      else translate punct_map s ! i)"
proof -
  have i: "i < length (translate punct_map s)" using assms by (simp add: translate_length)
  have p: "None = (if ([]::nat list) = [] then None else Some (last []))" by simp
  from scan_quotes_nth[OF p i, of alnum 0] show ?thesis
    by (simp add: convert_scan qualifying_before_def)
qed

text \<open>
  Claim C1 (as the code behaves at the two angle brackets). The table pairs the twelve
  ASCII marks with the twelve full-width marks in the order of the two literals, and the
  second literal ends with U+300B, U+300A: the ASCII less-than sign becomes the closing
  double angle bracket U+300B and the greater-than sign the opening one U+300A, where the
  claim has U+300A for less-than and U+300B for greater-than.
\<close>

theorem angle_brackets_swapped:
  "convert_punctuation_to_chinese alnum [0x3C] = [0x300B] \<and>
   convert_punctuation_to_chinese alnum [0x3E] = [0x300A]"
  by (simp add: convert_scan translate_def punct_map_def quote_pattern_def)

text \<open>
  Claim C5, amended. In the text after the punctuation mapping, a straight double quote is
  replaced by one of the two Chinese quotation marks exactly when the code point just
  before it is a CJK ideograph U+4E00..U+9FFF or one of the six full-width marks of the
  lookbehind, or when neither the code point just before it nor the one just after it is a
  word character; every other code point, and so every other double quote, is left as the
  punctuation mapping gave it. The length of the text does not change.
\<close>

theorem quote_replaced_iff_qualifies:
  assumes "i < length s"
  shows "length (convert_punctuation_to_chinese alnum s) = length s \<and>
    (if qualifies alnum (translate punct_map s) i
     then convert_punctuation_to_chinese alnum s ! i = 0x300C
          \<or> convert_punctuation_to_chinese alnum s ! i = 0x300D
     else convert_punctuation_to_chinese alnum s ! i = translate punct_map s ! i)"
  using convert_nth[OF assms, of alnum]
  by (simp add: convert_scan scan_quotes_length translate_length mark_def)

theorem quote_replaced_iff_qualifies_witness:
  "(2::nat) < length [0x22, 0x4F60, 0x22::nat] \<and>
   qualifies no_alnum (translate punct_map [0x22, 0x4F60, 0x22]) 2 \<and>
   \<not> qualifies no_alnum (translate punct_map [0x22, 0x4F60, 0x22]) 0 \<and>
   convert_punctuation_to_chinese no_alnum [0x22, 0x4F60, 0x22] ! 2 = 0x300C \<and>
   convert_punctuation_to_chinese no_alnum [0x22, 0x4F60, 0x22] ! 0 = 0x22"
proof -
  have t: "translate punct_map [0x22, 0x4F60, 0x22] = [0x22, 0x4F60, 0x22]"
    by (simp add: translate_def punct_map_def)
  have q2: "qualifies no_alnum [0x22, 0x4F60, 0x22] 2"
    by (simp add: qualifies_def lookbehind_class_def)
  have q0: "\<not> qualifies no_alnum [0x22, 0x4F60, 0x22] 0"
    by (simp add: qualifies_def is_word_def uni_isalnum_def)
  have c: "convert_punctuation_to_chinese no_alnum [0x22, 0x4F60, 0x22] = [0x22, 0x4F60, 0x300C]"
    by (simp add: convert_scan t quote_pattern_def lookbehind_class_def non_boundary_def
        word_at_def is_word_def uni_isalnum_def mark_def)
  have l2: "(2::nat) < length [0x22, 0x4F60, 0x22::nat]" by simp
  have l0: "(0::nat) < length [0x22, 0x4F60, 0x22::nat]" by simp
  from quote_replaced_iff_qualifies[OF l2, of no_alnum] quote_replaced_iff_qualifies[OF l0, of no_alnum]
  show ?thesis using q2 q0 c by (simp add: t)
qed

text \<open>
  Counterexample to claim C5 as stated: a straight double quote at the start of the text,
  with the CJK ideograph U+4F60 just after it, is adjacent to a CJK character and is not
  enclosed by word characters, and it is left unchanged.
\<close>

theorem quote_before_cjk_unchanged:
  "convert_punctuation_to_chinese no_alnum [0x22, 0x4F60] = [0x22, 0x4F60]"
  by (simp add: convert_scan translate_def punct_map_def quote_pattern_def lookbehind_class_def
      non_boundary_def word_at_def is_word_def uni_isalnum_def)

text \<open>
  Claim C6, amended. When exactly \<open>2k\<close> straight double quotes of the mapped text satisfy
  the replacement condition, the output has \<open>k\<close> opening marks and \<open>k\<close> closing marks more
  than the input has (so exactly \<open>k\<close> of each when the input has none), and the quote at a
  qualifying position becomes the opening mark when an even number of qualifying quotes
  come before it and the closing mark otherwise: opening, closing, opening, and so on,
  starting with the opening mark.
\<close>

theorem quote_alternation:
  assumes "qualifying_before alnum (translate punct_map s) (length s) = 2 * k"
  shows "count_list (convert_punctuation_to_chinese alnum s) 0x300C = count_list s 0x300C + k \<and>
         count_list (convert_punctuation_to_chinese alnum s) 0x300D = count_list s 0x300D + k \<and>
         (\<forall>i<length s. qualifies alnum (translate punct_map s) i \<longrightarrow>
            convert_punctuation_to_chinese alnum s ! i =
              (if even (qualifying_before alnum (translate punct_map s) i) then 0x300C else 0x300D))"
proof -
  let ?t = "translate punct_map s"
  have p: "None = (if ([]::nat list) = [] then None else Some (last []))" by simp
  have n: "2 * k = length (filter (qualifies alnum ([] @ ?t)) [length ([]::nat list)..<length ([]::nat list) + length ?t])"
    using assms by (simp add: qualifying_before_def translate_length)
  from scan_quotes_count[OF p n, of 0]
  have "count_list (convert_punctuation_to_chinese alnum s) 0x300C = count_list ?t 0x300C + k"
    and "count_list (convert_punctuation_to_chinese alnum s) 0x300D = count_list ?t 0x300D + k"
    by (simp_all add: convert_scan)
  then have counts: "count_list (convert_punctuation_to_chinese alnum s) 0x300C = count_list s 0x300C + k"
     "count_list (convert_punctuation_to_chinese alnum s) 0x300D = count_list s 0x300D + k"
    by (simp_all add: translate_count_mark)
  have alt: "\<forall>i<length s. qualifies alnum ?t i \<longrightarrow>
            convert_punctuation_to_chinese alnum s ! i =
              (if even (qualifying_before alnum ?t i) then 0x300C else 0x300D)"
    by (simp add: convert_nth mark_def)
  from counts alt show ?thesis by blast
qed

theorem quote_alternation_witness:
  "qualifying_before no_alnum (translate punct_map [0x4F60, 0x22, 0x597D, 0x22])
      (length [0x4F60, 0x22, 0x597D, 0x22::nat]) = 2 * 1 \<and>
   count_list (convert_punctuation_to_chinese no_alnum [0x4F60, 0x22, 0x597D, 0x22]) 0x300C = 1 \<and>
   count_list (convert_punctuation_to_chinese no_alnum [0x4F60, 0x22, 0x597D, 0x22]) 0x300D = 1"
proof -
  have t: "translate punct_map [0x4F60, 0x22, 0x597D, 0x22] = [0x4F60, 0x22, 0x597D, 0x22]"
    by (simp add: translate_def punct_map_def)
  have h: "qualifying_before no_alnum (translate punct_map [0x4F60, 0x22, 0x597D, 0x22])
      (length [0x4F60, 0x22, 0x597D, 0x22::nat]) = 2 * 1"
    unfolding t by (simp add: qualifying_before_def qualifies_def lookbehind_class_def upt_rec)
  from quote_alternation[OF h] h show ?thesis by simp
qed

text \<open>
  Counterexample to claim C6 as stated: the input already holds an opening mark U+300C
  and has exactly two qualifying quotes (\<open>k = 1\<close>); the output holds two opening marks.
\<close>

theorem quote_count_counterexample:
  "qualifying_before no_alnum (translate punct_map [0x300C, 0x4F60, 0x22, 0x597D, 0x22])
      (length [0x300C, 0x4F60, 0x22, 0x597D, 0x22::nat]) = 2 * 1 \<and>
   count_list (convert_punctuation_to_chinese no_alnum [0x300C, 0x4F60, 0x22, 0x597D, 0x22]) 0x300C = 2"
proof -
  have t: "translate punct_map [0x300C, 0x4F60, 0x22, 0x597D, 0x22] = [0x300C, 0x4F60, 0x22, 0x597D, 0x22]"
    by (simp add: translate_def punct_map_def)
  have h: "qualifying_before no_alnum (translate punct_map [0x300C, 0x4F60, 0x22, 0x597D, 0x22])
      (length [0x300C, 0x4F60, 0x22, 0x597D, 0x22::nat]) = 2 * 1"
    unfolding t by (simp add: qualifying_before_def qualifies_def lookbehind_class_def upt_rec
        is_word_def uni_isalnum_def no_alnum_def)
  have c: "convert_punctuation_to_chinese no_alnum [0x300C, 0x4F60, 0x22, 0x597D, 0x22]
       = [0x300C, 0x4F60, 0x300C, 0x597D, 0x300D]"
    by (simp add: convert_scan t quote_pattern_def lookbehind_class_def non_boundary_def
        word_at_def is_word_def uni_isalnum_def mark_def no_alnum_def)
  show ?thesis using h c by simp
qed

text \<open>
  Claim C7. The alternation counter is an attribute of the function object that \<open>def rep\<close>
  creates anew in every call, so the output of a call is the same in every store: the one
  left by any sequence of earlier calls, on any texts, started in any store, and the empty
  one.
\<close>

theorem counter_fresh_per_call:
  "fst (convert_punctuation_to_chinese_st alnum s (after_calls alnum prior h))
     = fst (convert_punctuation_to_chinese_st alnum s [])"
  by (simp add: convert_st_out)

theorem counter_fresh_per_call_witness:
  "fst (convert_punctuation_to_chinese_st no_alnum [0x22] (after_calls no_alnum [[0x22], [0x22, 0x22]] []))
     = fst (convert_punctuation_to_chinese_st no_alnum [0x22] []) \<and>
   fst (convert_punctuation_to_chinese_st no_alnum [0x22] []) = [0x300C]"
proof -
  have "fst (convert_punctuation_to_chinese_st no_alnum [0x22] []) = [0x300C]"
    by (simp add: convert_st_out translate_def punct_map_def quote_pattern_def non_boundary_def
        word_at_def is_word_def uni_isalnum_def mark_def)
  with counter_fresh_per_call[of no_alnum "[0x22]" "[[0x22], [0x22, 0x22]]" "[]"] show ?thesis
    by simp
qed


section \<open>Properties of the Correction Service Adapter\<close>

text \<open>
  Claim C3, amended. When the service raises an instance of \<open>Exception\<close> and the message
  of the handler is printed, \<open>correct_single_text\<close> returns the text it was given,
  unchanged, with the empty list of records; when the service returns, it returns that
  result. An exception leaves \<open>correct_single_text\<close> in two cases only: the service
  raised an exception that is not an instance of \<open>Exception\<close>, which the handler does not
  catch, or the \<open>print\<close> of the handler raised.
\<close>

theorem correct_degrades:
  "(corrector_instance s = Inl (Exception m)
      \<and> py_print console ([0x7EA0, 0x9519, 0x5F02, 0x5E38, 0x3A, 0x20] @ m) [0x0A] = None \<longrightarrow>
      correct_single_text console s corrector_instance = Inr (s, [])) \<and>
   (corrector_instance s = Inr r \<longrightarrow> correct_single_text console s corrector_instance = Inr r) \<and>
   (correct_single_text console s corrector_instance = Inl e \<longrightarrow>
      (\<exists>b. corrector_instance s = Inl (BaseException b) \<and> e = BaseException b)
      \<or> (\<exists>b. corrector_instance s = Inl (Exception b)
            \<and> py_print console ([0x7EA0, 0x9519, 0x5F02, 0x5E38, 0x3A, 0x20] @ b) [0x0A] = Some e))"
  by (auto simp: correct_single_text_def split: sum.splits exn.splits option.splits prod.splits)

theorem correct_degrades_witness:
  "raising_corrector [0x61] = Inl (Exception [0x62, 0x6F, 0x6F, 0x6D]) \<and>
   py_print quiet_stdout ([0x7EA0, 0x9519, 0x5F02, 0x5E38, 0x3A, 0x20] @ [0x62, 0x6F, 0x6F, 0x6D]) [0x0A]
     = None \<and>
   correct_single_text quiet_stdout [0x61] raising_corrector = Inr ([0x61], []) \<and>
   echo_corrector [0x61] = Inr ([0x61], []) \<and>
   correct_single_text quiet_stdout [0x61] echo_corrector = Inr ([0x61], []) \<and>
   correct_single_text broken_stdout [0x61] raising_corrector = Inl (Exception [0x70, 0x69, 0x70, 0x65]) \<and>
   py_print broken_stdout ([0x7EA0, 0x9519, 0x5F02, 0x5E38, 0x3A, 0x20] @ [0x62, 0x6F, 0x6F, 0x6D]) [0x0A]
     = Some (Exception [0x70, 0x69, 0x70, 0x65])"
proof -
  have h: "raising_corrector [0x61] = Inl (Exception [0x62, 0x6F, 0x6F, 0x6D])"
    by (simp add: raising_corrector_def)
  have q: "py_print quiet_stdout ([0x7EA0, 0x9519, 0x5F02, 0x5E38, 0x3A, 0x20] @ [0x62, 0x6F, 0x6F, 0x6D])
      [0x0A] = None"
    by (simp add: py_print_def quiet_stdout_def)
  have k: "echo_corrector [0x61] = Inr ([0x61], [])"
    by (simp add: echo_corrector_def)
  have l: "correct_single_text broken_stdout [0x61] raising_corrector = Inl (Exception [0x70, 0x69, 0x70, 0x65])"
    by (simp add: correct_single_text_def raising_corrector_def py_print_def broken_stdout_def)
  have a: "correct_single_text quiet_stdout [0x61] raising_corrector = Inr ([0x61], [])"
    using correct_degrades[of raising_corrector "[0x61]" "[0x62, 0x6F, 0x6F, 0x6D]" quiet_stdout] h q
    by blast
  have b: "correct_single_text quiet_stdout [0x61] echo_corrector = Inr ([0x61], [])"
    using correct_degrades[of echo_corrector "[0x61]" _ quiet_stdout "([0x61], [])"] k
    by blast
  have c: "py_print broken_stdout ([0x7EA0, 0x9519, 0x5F02, 0x5E38, 0x3A, 0x20] @ [0x62, 0x6F, 0x6F, 0x6D])
      [0x0A] = Some (Exception [0x70, 0x69, 0x70, 0x65])"
    using correct_degrades[of raising_corrector "[0x61]" _ broken_stdout _ "Exception [0x70, 0x69, 0x70, 0x65]"]
      l h
    by auto
  from h q a k b l c show ?thesis by blast
qed

text \<open>
  Counterexample to claim C3 as stated: the service raises \<open>KeyboardInterrupt\<close>, which is
  not an instance of \<open>Exception\<close>. The handler does not catch it and it leaves
  \<open>correct_single_text\<close>, although the standard output never raises.
\<close>

theorem interrupt_leaves_correct:
  "interrupted_corrector [0x61] = Inl (BaseException [0x73, 0x74, 0x6F, 0x70]) \<and>
   correct_single_text quiet_stdout [0x61] interrupted_corrector
     = Inl (BaseException [0x73, 0x74, 0x6F, 0x70])"
  by (simp add: correct_single_text_def interrupted_corrector_def)

section \<open>Properties of the Chapter Boundary Trimmer\<close>

lemma splitlines_Nil: "(splitlines content = []) = (content = [])"
  by (cases content) (auto split: list.splits)

lemma scan_start_bounds:
  "start \<le> i \<Longrightarrow> start \<le> scan_start similar title i ls start \<and>
     scan_start similar title i ls start \<le> i + length ls"
proof (induction ls arbitrary: i start)
  case Nil
  then show ?case by simp
next
  case (Cons l ls)
  from Cons.IH[of "i + 1" "i + 1"] Cons.prems show ?case by auto
qed

lemma scan_end_bounds:
  "start \<le> end_idx \<Longrightarrow> k \<le> end_idx \<Longrightarrow>
     start \<le> scan_end lines start k end_idx \<and> scan_end lines start k end_idx \<le> end_idx"
proof (induction k arbitrary: end_idx)
  case 0
  then show ?case by simp
next
  case (Suc i)
  from Suc.IH[of i] Suc.prems show ?case by auto
qed

lemma clean_slice:
  "clean_chapter_content similar content title =
     join [0x0A]
       (take (scan_end (splitlines content) (scan_start similar title 0 (splitlines content) 0)
                (length (splitlines content)) (length (splitlines content))
              - scan_start similar title 0 (splitlines content) 0)
          (drop (scan_start similar title 0 (splitlines content) 0) (splitlines content)))"
proof (cases "splitlines content = []")
  case True
  then have "content = []" by (simp add: splitlines_Nil)
  then show ?thesis by (simp add: clean_chapter_content_def)
next
  case False
  then show ?thesis by (simp add: clean_chapter_content_def Let_def)
qed

text \<open>
  Claim C10. For every content and title, the result is the join with U+000A of the slice
  \<open>lines[start:end]\<close> of the lines of the content, where \<open>start\<close> and \<open>end\<close> are
  what the two loops compute and \<open>0 \<le> start \<le> end \<le> len(lines)\<close>: the lines that are
  kept are unmodified, in their order, and none is removed from the middle.
\<close>

theorem trimmer_contiguous_slice:
  "clean_chapter_content similar content title =
     join [0x0A]
       (take (scan_end (splitlines content) (scan_start similar title 0 (splitlines content) 0)
                (length (splitlines content)) (length (splitlines content))
              - scan_start similar title 0 (splitlines content) 0)
          (drop (scan_start similar title 0 (splitlines content) 0) (splitlines content)))
   \<and> 0 \<le> scan_start similar title 0 (splitlines content) 0
   \<and> scan_start similar title 0 (splitlines content) 0
       \<le> scan_end (splitlines content) (scan_start similar title 0 (splitlines content) 0)
            (length (splitlines content)) (length (splitlines content))
   \<and> scan_end (splitlines content) (scan_start similar title 0 (splitlines content) 0)
            (length (splitlines content)) (length (splitlines content))
       \<le> length (splitlines content)"
proof -
  let ?ls = "splitlines content"
  let ?s = "scan_start similar title 0 ?ls 0"
  have s: "?s \<le> length ?ls" using scan_start_bounds[of 0 0 similar title ?ls] by simp
  from scan_end_bounds[OF s, of "length ?ls" ?ls] clean_slice[of similar content title]
  show ?thesis by simp
qed

theorem trimmer_contiguous_slice_witness:
  "clean_chapter_content same_text [0x54, 0x0A, 0x62, 0x0A, 0x672C, 0x7AE0, 0x5B8C] [0x54] =
     join [0x0A] (take (2 - 1) (drop 1 [[0x54], [0x62], [0x672C, 0x7AE0, 0x5B8C]])) \<and>
   splitlines [0x54, 0x0A, 0x62, 0x0A, 0x672C, 0x7AE0, 0x5B8C]
     = [[0x54], [0x62], [0x672C, 0x7AE0, 0x5B8C]] \<and>
   scan_start same_text [0x54] 0 [[0x54], [0x62], [0x672C, 0x7AE0, 0x5B8C]] 0 = 1 \<and>
   scan_end [[0x54], [0x62], [0x672C, 0x7AE0, 0x5B8C]] 1 3 3 = 2"
proof -
  let ?c = "[0x54, 0x0A, 0x62, 0x0A, 0x672C, 0x7AE0, 0x5B8C] :: nat list"
  let ?ls = "[[0x54], [0x62], [0x672C, 0x7AE0, 0x5B8C]] :: nat list list"
  have sl: "splitlines ?c = ?ls"
    by (simp add: is_linebreak_def)
  have s: "scan_start same_text [0x54] 0 ?ls 0 = 1"
    by (simp add: same_text_def strip_def py_isspace_def)
  have e3: "scan_end ?ls 1 (Suc (Suc (Suc 0))) (Suc (Suc (Suc 0))) = 2"
    by (simp add: end_marker_at_def literal_at_def)
  then have e: "scan_end ?ls 1 3 3 = 2"
    by (simp only: numeral_3_eq_3)
  have len: "length ?ls = 3" by simp
  from trimmer_contiguous_slice[of same_text ?c "[0x54]"]
  have "clean_chapter_content same_text ?c [0x54] = join [0x0A] (take (2 - 1) (drop 1 ?ls))"
    unfolding sl len s e by (rule conjunct1)
  with sl s e show ?thesis by blast
qed

lemma scan_start_none:
  "ls \<noteq> [] \<Longrightarrow> \<not> similar (strip (hd ls)) title \<Longrightarrow> scan_start similar title i ls start = start"
  by (cases ls) simp_all

lemma scan_end_none:
  "ls \<noteq> [] \<Longrightarrow> \<not> re_search_end_marker (last ls) \<Longrightarrow>
     scan_end ls start (length ls) (length ls) = length ls"
proof -
  assume ne: "ls \<noteq> []" and m: "\<not> re_search_end_marker (last ls)"
  from ne obtain n where n: "length ls = Suc n" by (cases ls) auto
  with ne have "ls ! n = last ls" by (simp add: last_conv_nth)
  with m n show ?thesis by simp
qed

lemma clean_untrimmed:
  assumes "no_echo_no_marker similar content title"
  shows "clean_chapter_content similar content title = join [0x0A] (splitlines content)"
proof (cases "splitlines content = []")
  case True
  then have "content = []" by (simp add: splitlines_Nil)
  then show ?thesis by (simp add: clean_chapter_content_def)
next
  case False
  from assms have all: "\<forall>l\<in>set (splitlines content). \<not> similar (strip l) title \<and> \<not> re_search_end_marker l"
    by (simp add: no_echo_no_marker_def list_all_iff)
  from False have "hd (splitlines content) \<in> set (splitlines content)"
    and "last (splitlines content) \<in> set (splitlines content)" by simp_all
  with all have h: "\<not> similar (strip (hd (splitlines content))) title"
    and l: "\<not> re_search_end_marker (last (splitlines content))" by blast+
  show ?thesis
    using False scan_start_none[of "splitlines content" similar title 0 0, OF False h]
      scan_end_none[OF False l]
    by (simp add: clean_chapter_content_def Let_def)
qed

text \<open>
  Claim C4, amended. When no line is similar to the title and no line matches the
  chapter-end pattern, the trimmer returns the lines of the content joined with U+000A.
  That is the content itself when the content is the join of its own lines (its only line
  boundaries are single U+000A, and none ends the text); the trimmer run on its own result
  then gives the content again.
\<close>

theorem trimmer_identity_on_trimmed:
  assumes "no_echo_no_marker similar content title"
  shows "clean_chapter_content similar content title = join [0x0A] (splitlines content) \<and>
    (join [0x0A] (splitlines content) = content \<longrightarrow>
       clean_chapter_content similar content title = content \<and>
       clean_chapter_content similar (clean_chapter_content similar content title) title = content)"
  using clean_untrimmed[OF assms] by simp

theorem trimmer_identity_on_trimmed_witness:
  "no_echo_no_marker same_text [0x61, 0x0A, 0x62] [0x63] \<and>
   join [0x0A] (splitlines [0x61, 0x0A, 0x62]) = [0x61, 0x0A, 0x62] \<and>
   clean_chapter_content same_text [0x61, 0x0A, 0x62] [0x63] = [0x61, 0x0A, 0x62] \<and>
   clean_chapter_content same_text (clean_chapter_content same_text [0x61, 0x0A, 0x62] [0x63]) [0x63]
     = [0x61, 0x0A, 0x62]"
proof -
  have sl: "splitlines [0x61, 0x0A, 0x62] = [[0x61], [0x62]]"
    by (simp add: is_linebreak_def)
  have h: "no_echo_no_marker same_text [0x61, 0x0A, 0x62] [0x63]"
    by (simp add: no_echo_no_marker_def is_linebreak_def same_text_def strip_def py_isspace_def
        end_marker_at_def literal_at_def)
  have j: "join [0x0A] (splitlines [0x61, 0x0A, 0x62]) = [0x61, 0x0A, 0x62]"
    by (simp add: is_linebreak_def)
  from trimmer_identity_on_trimmed[OF h] h j show ?thesis by simp
qed

text \<open>
  Counterexample to claim C4 as stated: the content \<open>a\<close> followed by U+000A, with the
  title \<open>b\<close>, has no line similar to the title and no chapter-end line, and the result is
  \<open>a\<close> without the line boundary, not the content.
\<close>

theorem trailing_newline_dropped:
  "no_echo_no_marker same_text [0x61, 0x0A] [0x62] \<and>
   clean_chapter_content same_text [0x61, 0x0A] [0x62] = [0x61] \<and>
   clean_chapter_content same_text [0x61, 0x0A] [0x62] \<noteq> [0x61, 0x0A]"
proof -
  have sl: "splitlines [0x61, 0x0A] = [[0x61]]"
    by (simp add: is_linebreak_def)
  have h: "no_echo_no_marker same_text [0x61, 0x0A] [0x62]"
    by (simp add: no_echo_no_marker_def is_linebreak_def same_text_def strip_def py_isspace_def
        end_marker_at_def literal_at_def)
  have c: "clean_chapter_content same_text [0x61, 0x0A] [0x62] = [0x61]"
    by (simp add: clean_chapter_content_def is_linebreak_def same_text_def strip_def py_isspace_def
        end_marker_at_def literal_at_def)
  from h c show ?thesis by simp
qed


section \<open>Properties of the File Processor\<close>

lemma convert_st_fst:
  "fst (convert_punctuation_to_chinese_st alnum s h) = convert_punctuation_to_chinese alnum s"
  by (simp add: convert_st_out convert_scan)

lemma process_file_unread:
  "read_text w f = Inl e \<Longrightarrow> snd (process_file alnum similar w f out c p) = w"
  by (simp add: process_file_def Let_def split: option.splits exn.splits)


lemma process_file_readable:
  assumes "py_print (print_error w) ([0x6B63, 0x5728, 0x5904, 0x7406, 0x3A, 0x20] @ basename f) [0x0A] = None"
    and "read_text w f = Inr raw"
    and "correct_single_text (print_error w) (normalized alnum similar (basename f) raw) c
           = Inr (corrected, details)"
    and "check_grammar_with_hanlp (print_error w) corrected p = Inr issues"
    and "h = snd (convert_punctuation_to_chinese_st alnum
            (clean_chapter_content similar raw (split_underscore_last (splitext_root (basename f)))) (objs w))"
  shows "process_file alnum similar w f out c p =
     (case write_error w (out, basename f) corrected of
        Some (e, left) \<Rightarrow> (Some e, w\<lparr>objs := h, fs := (fs w)((out, basename f) := left)\<rparr>)
      | None \<Rightarrow>
         (if details \<noteq> [] \<or> issues \<noteq> []
          then (case write_error w (out, report_prefix @ basename f) (report_text (basename f) details issues) of
                  Some (e, left) \<Rightarrow>
                    (Some e, w\<lparr>objs := h,
                        fs := (fs w)((out, basename f) := Inr corrected,
                                     (out, report_prefix @ basename f) := left)\<rparr>)
                | None \<Rightarrow>
                    (py_print (print_error w)
                       ([0x20, 0x20, 0x62A5, 0x544A, 0x3A, 0x20] @ report_prefix @ basename f) [0x0A],
                     w\<lparr>objs := h,
                        fs := (fs w)((out, basename f) := Inr corrected,
                                     (out, report_prefix @ basename f) :=
                                        Inr (report_text (basename f) details issues))\<rparr>))
          else (py_print (print_error w)
                  [0x20, 0x20, 0x72B6, 0x6001, 0x3A, 0x20, 0x65E0, 0x9519, 0xFF0C,
                   0x672A, 0x751F, 0x6210, 0x62A5, 0x544A] [0x0A],
                w\<lparr>objs := h, fs := (fs w)((out, basename f) := Inr corrected)\<rparr>)))"
proof -
  let ?cl = "clean_chapter_content similar raw (split_underscore_last (splitext_root (basename f)))"
  obtain conv h' where cs: "convert_punctuation_to_chinese_st alnum ?cl (objs w) = (conv, h')"
    by (cases "convert_punctuation_to_chinese_st alnum ?cl (objs w)")
  then have conv: "conv = normalized alnum similar (basename f) raw"
    using convert_st_fst[of alnum ?cl "objs w"] by (simp add: normalized_def)
  from cs assms(5) have h: "h' = h" by simp
  from assms(3) have cor: "correct_single_text (print_error w) conv c = Inr (corrected, details)"
    by (simp add: conv)
  show ?thesis
    using assms(1,2,4) cs cor h
    by (simp add: process_file_def Let_def write_text_def basename_def split: option.splits prod.splits)
qed

lemma process_file_correct_raised:
  assumes "read_text w f = Inr raw"
    and "correct_single_text (print_error w) (normalized alnum similar (basename f) raw) c = Inl x"
  shows "fst (process_file alnum similar w f out c p) \<noteq> None \<and>
         fs (snd (process_file alnum similar w f out c p)) = fs w"
proof -
  let ?cl = "clean_chapter_content similar raw (split_underscore_last (splitext_root (basename f)))"
  obtain conv h' where cs: "convert_punctuation_to_chinese_st alnum ?cl (objs w) = (conv, h')"
    by (cases "convert_punctuation_to_chinese_st alnum ?cl (objs w)")
  then have conv: "conv = normalized alnum similar (basename f) raw"
    using convert_st_fst[of alnum ?cl "objs w"] by (simp add: normalized_def)
  show ?thesis
    using assms cs conv
    by (auto simp: process_file_def Let_def split: option.splits prod.splits)
qed

lemma process_file_check_raised:
  assumes "read_text w f = Inr raw"
    and "correct_single_text (print_error w) (normalized alnum similar (basename f) raw) c
           = Inr (corrected, details)"
    and "check_grammar_with_hanlp (print_error w) corrected p = Inl x"
  shows "fst (process_file alnum similar w f out c p) \<noteq> None \<and>
         fs (snd (process_file alnum similar w f out c p)) = fs w"
proof -
  let ?cl = "clean_chapter_content similar raw (split_underscore_last (splitext_root (basename f)))"
  obtain conv h' where cs: "convert_punctuation_to_chinese_st alnum ?cl (objs w) = (conv, h')"
    by (cases "convert_punctuation_to_chinese_st alnum ?cl (objs w)")
  then have conv: "conv = normalized alnum similar (basename f) raw"
    using convert_st_fst[of alnum ?cl "objs w"] by (simp add: normalized_def)
  show ?thesis
    using assms cs conv
    by (auto simp: process_file_def Let_def split: option.splits prod.splits)
qed


lemma process_file_frame:
  "q \<noteq> (out, basename f) \<Longrightarrow> q \<noteq> (out, report_prefix @ basename f) \<Longrightarrow>
   fs (snd (process_file alnum similar w f out c p)) q = fs w q"
  by (auto simp: process_file_def Let_def write_text_def
      split: option.splits prod.splits sum.splits exn.splits)


lemma sample_normalized:
  "n \<noteq> 0x2E \<Longrightarrow> n \<noteq> 0x5F \<Longrightarrow> n \<noteq> 0x61 \<Longrightarrow> normalized no_alnum same_text [n] [0x61] = [0x61]"
  by (simp add: normalized_def clean_chapter_content_def is_linebreak_def same_text_def strip_def
      py_isspace_def end_marker_at_def literal_at_def splitext_root_def split_underscore_last_def
      convert_scan translate_def punct_map_def quote_pattern_def)

lemma sample_world_fields:
  "fs (sample_world files locked) = sample_fs files \<and>
   print_error (sample_world files locked) = quiet_stdout \<and>
   write_error (sample_world files []) q s = None"
  by (simp add: sample_world_def)

lemma quiet_print: "py_print quiet_stdout s t = None"
  by (simp add: py_print_def quiet_stdout_def)





text \<open>
  Claim C9, amended. \<open>process_file\<close> never changes a path other than the file of the
  input's name in the output directory and the report of that name. It writes nothing
  when its first \<open>print\<close> raises, when the read raises, and when the correction call or
  the grammar check raises. Otherwise it writes the corrected text to the file of the
  input's name in the output directory. When that write raises, the exception leaves
  \<open>process_file\<close>, only that path is touched and no report is written. When it succeeds
  and both lists are empty, that file is the only change. When it succeeds and one of the
  lists is not empty, the report is written to the name with the report prefix, and these
  two files are the only changes; when the write of the report raises, the exception leaves
  \<open>process_file\<close> with the corrected text already written.
\<close>

theorem file_writes:
  "(py_print (print_error w) ([0x6B63, 0x5728, 0x5904, 0x7406, 0x3A, 0x20] @ basename f) [0x0A] = Some x \<longrightarrow>
      process_file alnum similar w f out c p = (Some x, w)) \<and>
   (read_text w f = Inl e \<longrightarrow> snd (process_file alnum similar w f out c p) = w) \<and>
   (q \<noteq> (out, basename f) \<and> q \<noteq> (out, report_prefix @ basename f) \<longrightarrow>
      fs (snd (process_file alnum similar w f out c p)) q = fs w q) \<and>
   (read_text w f = Inr raw
      \<and> correct_single_text (print_error w) (normalized alnum similar (basename f) raw) c = Inl x \<longrightarrow>
      fst (process_file alnum similar w f out c p) \<noteq> None
      \<and> fs (snd (process_file alnum similar w f out c p)) = fs w) \<and>
   (read_text w f = Inr raw
      \<and> correct_single_text (print_error w) (normalized alnum similar (basename f) raw) c
          = Inr (corrected, details)
      \<and> check_grammar_with_hanlp (print_error w) corrected p = Inl x \<longrightarrow>
      fst (process_file alnum similar w f out c p) \<noteq> None
      \<and> fs (snd (process_file alnum similar w f out c p)) = fs w) \<and>
   (py_print (print_error w) ([0x6B63, 0x5728, 0x5904, 0x7406, 0x3A, 0x20] @ basename f) [0x0A] = None
      \<and> read_text w f = Inr raw
      \<and> correct_single_text (print_error w) (normalized alnum similar (basename f) raw) c
          = Inr (corrected, details)
      \<and> check_grammar_with_hanlp (print_error w) corrected p = Inr issues \<longrightarrow>
      (case write_error w (out, basename f) corrected of
         Some (y, left) \<Rightarrow>
           fst (process_file alnum similar w f out c p) = Some y
           \<and> fs (snd (process_file alnum similar w f out c p)) = (fs w)((out, basename f) := left)
       | None \<Rightarrow>
          (if details = [] \<and> issues = []
           then fs (snd (process_file alnum similar w f out c p))
                  = (fs w)((out, basename f) := Inr corrected)
           else (case write_error w (out, report_prefix @ basename f)
                        (report_text (basename f) details issues) of
                   Some (y, left) \<Rightarrow>
                     fst (process_file alnum similar w f out c p) = Some y
                     \<and> fs (snd (process_file alnum similar w f out c p))
                         = (fs w)((out, basename f) := Inr corrected,
                                  (out, report_prefix @ basename f) := left)
                 | None \<Rightarrow>
                     fs (snd (process_file alnum similar w f out c p))
                       = (fs w)((out, basename f) := Inr corrected,
                                (out, report_prefix @ basename f) :=
                                   Inr (report_text (basename f) details issues))))))"
proof (intro conjI impI)
  assume "py_print (print_error w) ([0x6B63, 0x5728, 0x5904, 0x7406, 0x3A, 0x20] @ basename f) [0x0A] = Some x"
  then show "process_file alnum similar w f out c p = (Some x, w)"
    by (simp add: process_file_def Let_def)
next
  assume "read_text w f = Inl e"
  then show "snd (process_file alnum similar w f out c p) = w"
    by (rule process_file_unread)
next
  assume "q \<noteq> (out, basename f) \<and> q \<noteq> (out, report_prefix @ basename f)"
  then show "fs (snd (process_file alnum similar w f out c p)) q = fs w q"
    by (simp add: process_file_frame)
next
  assume a: "read_text w f = Inr raw
      \<and> correct_single_text (print_error w) (normalized alnum similar (basename f) raw) c = Inl x"
  then have r: "read_text w f = Inr raw"
    and co: "correct_single_text (print_error w) (normalized alnum similar (basename f) raw) c = Inl x"
    by simp_all
  from process_file_correct_raised[OF r co, of out p]
  show "fst (process_file alnum similar w f out c p) \<noteq> None"
    and "fs (snd (process_file alnum similar w f out c p)) = fs w"
    by simp_all
next
  assume a: "read_text w f = Inr raw
      \<and> correct_single_text (print_error w) (normalized alnum similar (basename f) raw) c
          = Inr (corrected, details)
      \<and> check_grammar_with_hanlp (print_error w) corrected p = Inl x"
  then have r: "read_text w f = Inr raw"
    and co: "correct_single_text (print_error w) (normalized alnum similar (basename f) raw) c
          = Inr (corrected, details)"
    and g: "check_grammar_with_hanlp (print_error w) corrected p = Inl x"
    by simp_all
  from process_file_check_raised[OF r co g, of out]
  show "fst (process_file alnum similar w f out c p) \<noteq> None"
    and "fs (snd (process_file alnum similar w f out c p)) = fs w"
    by simp_all
next
  assume a: "py_print (print_error w) ([0x6B63, 0x5728, 0x5904, 0x7406, 0x3A, 0x20] @ basename f) [0x0A] = None
      \<and> read_text w f = Inr raw
      \<and> correct_single_text (print_error w) (normalized alnum similar (basename f) raw) c
          = Inr (corrected, details)
      \<and> check_grammar_with_hanlp (print_error w) corrected p = Inr issues"
  then have pr: "py_print (print_error w) ([0x6B63, 0x5728, 0x5904, 0x7406, 0x3A, 0x20] @ basename f) [0x0A] = None"
    and r: "read_text w f = Inr raw"
    and co: "correct_single_text (print_error w) (normalized alnum similar (basename f) raw) c
          = Inr (corrected, details)"
    and g: "check_grammar_with_hanlp (print_error w) corrected p = Inr issues" by simp_all
  show "(case write_error w (out, basename f) corrected of
         Some (y, left) \<Rightarrow>
           fst (process_file alnum similar w f out c p) = Some y
           \<and> fs (snd (process_file alnum similar w f out c p)) = (fs w)((out, basename f) := left)
       | None \<Rightarrow>
          (if details = [] \<and> issues = []
           then fs (snd (process_file alnum similar w f out c p))
                  = (fs w)((out, basename f) := Inr corrected)
           else (case write_error w (out, report_prefix @ basename f)
                        (report_text (basename f) details issues) of
                   Some (y, left) \<Rightarrow>
                     fst (process_file alnum similar w f out c p) = Some y
                     \<and> fs (snd (process_file alnum similar w f out c p))
                         = (fs w)((out, basename f) := Inr corrected,
                                  (out, report_prefix @ basename f) := left)
                 | None \<Rightarrow>
                     fs (snd (process_file alnum similar w f out c p))
                       = (fs w)((out, basename f) := Inr corrected,
                                (out, report_prefix @ basename f) :=
                                   Inr (report_text (basename f) details issues)))))"
    using process_file_readable[OF pr r co g refl, of out]
    by (auto split: option.splits)
qed

theorem file_writes_witness:
  "process_file no_alnum same_text ((sample_world [] [])\<lparr>print_error := broken_stdout\<rparr>)
      ([0x69], [0x78]) [0x6F] echo_corrector (None :: unit parser option)
     = (Some (Exception [0x70, 0x69, 0x70, 0x65]), (sample_world [] [])\<lparr>print_error := broken_stdout\<rparr>) \<and>
   snd (process_file no_alnum same_text (sample_world [] []) ([0x69], [0x78]) [0x6F] echo_corrector
          (None :: unit parser option)) = sample_world [] [] \<and>
   fs (snd (process_file no_alnum same_text (sample_world [(([0x69], [0x78]), [0x61])] [])
              ([0x69], [0x78]) [0x6F] flagging_corrector (None :: unit parser option))) ([0x69], [0x78])
     = Inr [0x61] \<and>
   fst (process_file no_alnum same_text (sample_world [(([0x69], [0x78]), [0x61])] [])
          ([0x69], [0x78]) [0x6F] interrupted_corrector (None :: unit parser option)) \<noteq> None \<and>
   fs (snd (process_file no_alnum same_text (sample_world [(([0x69], [0x78]), [0x61])] [])
              ([0x69], [0x78]) [0x6F] interrupted_corrector (None :: unit parser option)))
     = fs (sample_world [(([0x69], [0x78]), [0x61])] []) \<and>
   fst (process_file no_alnum same_text (sample_world [(([0x69], [0x78]), [0x61, 0x61, 0x61])] [])
          ([0x69], [0x78]) [0x6F] echo_corrector (Some interrupted_parser)) \<noteq> None \<and>
   fs (snd (process_file no_alnum same_text (sample_world [(([0x69], [0x78]), [0x61, 0x61, 0x61])] [])
              ([0x69], [0x78]) [0x6F] echo_corrector (Some interrupted_parser)))
     = fs (sample_world [(([0x69], [0x78]), [0x61, 0x61, 0x61])] []) \<and>
   fs (snd (process_file no_alnum same_text (sample_world [(([0x69], [0x78]), [0x61])] [])
              ([0x69], [0x78]) [0x6F] echo_corrector (None :: unit parser option)))
     = (fs (sample_world [(([0x69], [0x78]), [0x61])] []))(([0x6F], [0x78]) := Inr [0x61]) \<and>
   fs (snd (process_file no_alnum same_text (sample_world [(([0x69], [0x78]), [0x61])] [])
              ([0x69], [0x78]) [0x6F] flagging_corrector (None :: unit parser option)))
     = (fs (sample_world [(([0x69], [0x78]), [0x61])] []))
         (([0x6F], [0x78]) := Inr [0x61],
          ([0x6F], report_prefix @ [0x78]) := Inr (report_text [0x78] [([0x61], [0x62], 0, 1)] []))"
proof -
  let ?fx = "([0x69], [0x78]) :: path"
  let ?wz = "(sample_world [] [])\<lparr>print_error := broken_stdout\<rparr>"
  let ?wa = "sample_world [] []"
  let ?wb = "sample_world [(?fx, [0x61])] []"
  let ?wc = "sample_world [(?fx, [0x61, 0x61, 0x61])] []"
  let ?np = "None :: unit parser option"
  have pz: "py_print (print_error ?wz) ([0x6B63, 0x5728, 0x5904, 0x7406, 0x3A, 0x20] @ basename ?fx) [0x0A]
      = Some (Exception [0x70, 0x69, 0x70, 0x65])"
    by (simp add: py_print_def broken_stdout_def)
  have r0: "read_text ?wa ?fx = Inl (Exception [0x6E, 0x6F, 0x6E, 0x65])"
    by (simp add: read_text_def sample_world_def sample_fs_def)
  have r: "read_text ?wb ?fx = Inr [0x61]"
    by (simp add: read_text_def sample_world_def sample_fs_def)
  have rc: "read_text ?wc ?fx = Inr [0x61, 0x61, 0x61]"
    by (simp add: read_text_def sample_world_def sample_fs_def)
  have pb: "py_print (print_error ?wb) ([0x6B63, 0x5728, 0x5904, 0x7406, 0x3A, 0x20] @ basename ?fx) [0x0A] = None"
    by (simp add: sample_world_fields quiet_print)
  have wr: "write_error ?wb q s = None" for q s
    by (simp add: sample_world_def)
  have g: "check_grammar_with_hanlp (print_error ?wb) [0x61] ?np = Inr []"
    by (simp add: check_grammar_with_hanlp_def)
  have ce: "correct_single_text (print_error ?wb) (normalized no_alnum same_text (basename ?fx) [0x61])
      echo_corrector = Inr ([0x61], [])"
    by (simp add: basename_def sample_normalized correct_single_text_def echo_corrector_def)
  have cf: "correct_single_text (print_error ?wb) (normalized no_alnum same_text (basename ?fx) [0x61])
      flagging_corrector = Inr ([0x61], [([0x61], [0x62], 0, 1)])"
    by (simp add: basename_def sample_normalized correct_single_text_def flagging_corrector_def)
  have ci: "correct_single_text (print_error ?wb) (normalized no_alnum same_text (basename ?fx) [0x61])
      interrupted_corrector = Inl (BaseException [0x73, 0x74, 0x6F, 0x70])"
    by (simp add: correct_single_text_def interrupted_corrector_def)
  have nc: "normalized no_alnum same_text (basename ?fx) [0x61, 0x61, 0x61] = [0x61, 0x61, 0x61]"
    by (simp add: basename_def normalized_def clean_chapter_content_def is_linebreak_def same_text_def
        strip_def py_isspace_def end_marker_at_def literal_at_def splitext_root_def
        split_underscore_last_def convert_scan translate_def punct_map_def quote_pattern_def)
  have cc: "correct_single_text (print_error ?wc)
      (normalized no_alnum same_text (basename ?fx) [0x61, 0x61, 0x61]) echo_corrector
      = Inr ([0x61, 0x61, 0x61], [])"
    by (simp add: nc correct_single_text_def echo_corrector_def)
  have gc: "check_grammar_with_hanlp (print_error ?wc) [0x61, 0x61, 0x61] (Some interrupted_parser)
      = Inl (BaseException [0x73, 0x74, 0x6F, 0x70])"
    by (simp add: check_grammar_with_hanlp_def is_sentence_end_def strip_def py_isspace_def
        interrupted_parser_def)
  have a0: "process_file no_alnum same_text ?wz ?fx [0x6F] echo_corrector ?np
      = (Some (Exception [0x70, 0x69, 0x70, 0x65]), ?wz)"
    using file_writes[where w = ?wz and f = ?fx and x = "Exception [0x70, 0x69, 0x70, 0x65]"
        and alnum = no_alnum and similar = same_text and out = "[0x6F]" and c = echo_corrector
        and p = ?np, THEN conjunct1] pz
    by (rule mp)
  have a1: "snd (process_file no_alnum same_text ?wa ?fx [0x6F] echo_corrector ?np) = ?wa"
    using file_writes[where w = ?wa and f = ?fx and e = "Exception [0x6E, 0x6F, 0x6E, 0x65]"
        and alnum = no_alnum and similar = same_text and out = "[0x6F]" and c = echo_corrector
        and p = ?np, THEN conjunct2, THEN conjunct1] r0
    by (rule mp)
  have a2: "fs (snd (process_file no_alnum same_text ?wb ?fx [0x6F] flagging_corrector ?np)) ?fx
      = Inr [0x61]"
    using file_writes[where w = ?wb and f = ?fx and q = ?fx
        and alnum = no_alnum and similar = same_text and out = "[0x6F]" and c = flagging_corrector
        and p = ?np, THEN conjunct2, THEN conjunct2, THEN conjunct1] r
    by (simp add: basename_def read_text_def)
  have a3: "fst (process_file no_alnum same_text ?wb ?fx [0x6F] interrupted_corrector ?np) \<noteq> None
      \<and> fs (snd (process_file no_alnum same_text ?wb ?fx [0x6F] interrupted_corrector ?np)) = fs ?wb"
    using file_writes[where w = ?wb and f = ?fx and raw = "[0x61]"
        and x = "BaseException [0x73, 0x74, 0x6F, 0x70]"
        and alnum = no_alnum and similar = same_text and out = "[0x6F]" and c = interrupted_corrector
        and p = ?np, THEN conjunct2, THEN conjunct2, THEN conjunct2, THEN conjunct1] r ci
    by blast
  have a4: "fst (process_file no_alnum same_text ?wc ?fx [0x6F] echo_corrector (Some interrupted_parser)) \<noteq> None
      \<and> fs (snd (process_file no_alnum same_text ?wc ?fx [0x6F] echo_corrector (Some interrupted_parser)))
          = fs ?wc"
    using file_writes[where w = ?wc and f = ?fx and raw = "[0x61, 0x61, 0x61]"
        and x = "BaseException [0x73, 0x74, 0x6F, 0x70]" and corrected = "[0x61, 0x61, 0x61]"
        and details = "[]"
        and alnum = no_alnum and similar = same_text and out = "[0x6F]" and c = echo_corrector
        and p = "Some interrupted_parser",
        THEN conjunct2, THEN conjunct2, THEN conjunct2, THEN conjunct2, THEN conjunct1] rc cc gc
    by blast
  have a5: "fs (snd (process_file no_alnum same_text ?wb ?fx [0x6F] echo_corrector ?np))
      = (fs ?wb)(([0x6F], [0x78]) := Inr [0x61])"
    using file_writes[where w = ?wb and f = ?fx and alnum = no_alnum and similar = same_text
        and out = "[0x6F]" and c = echo_corrector and p = ?np and raw = "[0x61]"
        and corrected = "[0x61]" and details = "[]" and issues = "[]",
        THEN conjunct2, THEN conjunct2, THEN conjunct2, THEN conjunct2, THEN conjunct2] pb r ce g
    by (simp add: wr basename_def)
  have a6: "fs (snd (process_file no_alnum same_text ?wb ?fx [0x6F] flagging_corrector ?np))
      = (fs ?wb)(([0x6F], [0x78]) := Inr [0x61],
              ([0x6F], report_prefix @ [0x78]) := Inr (report_text [0x78] [([0x61], [0x62], 0, 1)] []))"
    using file_writes[where w = ?wb and f = ?fx and alnum = no_alnum and similar = same_text
        and out = "[0x6F]" and c = flagging_corrector and p = ?np and raw = "[0x61]"
        and corrected = "[0x61]" and details = "[([0x61], [0x62], 0, 1)]" and issues = "[]",
        THEN conjunct2, THEN conjunct2, THEN conjunct2, THEN conjunct2, THEN conjunct2] pb r cf g
    by (simp add: wr basename_def)
  from a0 a1 a2 a3 a4 a5 a6 show ?thesis by blast
qed

text \<open>
  Counterexample to claim C9 as stated: the file is read, the list of correction records
  is not empty, and the write of the corrected text raises. The exception leaves
  \<open>process_file\<close>: the output file does not hold the corrected text and no report is
  written.
\<close>

theorem failed_output_write_no_report:
  "read_text (sample_world [(([0x69], [0x78]), [0x61])] [([0x6F], [0x78])]) ([0x69], [0x78]) = Inr [0x61] \<and>
   correct_single_text quiet_stdout (normalized no_alnum same_text [0x78] [0x61]) flagging_corrector
     = Inr ([0x61], [([0x61], [0x62], 0, 1)]) \<and>
   fst (process_file no_alnum same_text (sample_world [(([0x69], [0x78]), [0x61])] [([0x6F], [0x78])])
          ([0x69], [0x78]) [0x6F] flagging_corrector (None :: unit parser option))
     = Some (Exception [0x64, 0x65, 0x6E, 0x69, 0x65, 0x64]) \<and>
   fs (snd (process_file no_alnum same_text (sample_world [(([0x69], [0x78]), [0x61])] [([0x6F], [0x78])])
              ([0x69], [0x78]) [0x6F] flagging_corrector (None :: unit parser option)))
      ([0x6F], [0x78])
     = Inl (Exception [0x6E, 0x6F, 0x6E, 0x65]) \<and>
   fs (snd (process_file no_alnum same_text (sample_world [(([0x69], [0x78]), [0x61])] [([0x6F], [0x78])])
              ([0x69], [0x78]) [0x6F] flagging_corrector (None :: unit parser option)))
      ([0x6F], report_prefix @ [0x78])
     = Inl (Exception [0x6E, 0x6F, 0x6E, 0x65])"
proof -
  let ?fx = "([0x69], [0x78]) :: path"
  let ?wa = "sample_world [(?fx, [0x61])] [([0x6F], [0x78])]"
  let ?np = "None :: unit parser option"
  have r: "read_text ?wa ?fx = Inr [0x61]"
    by (simp add: read_text_def sample_world_def sample_fs_def)
  have pr: "py_print (print_error ?wa) ([0x6B63, 0x5728, 0x5904, 0x7406, 0x3A, 0x20] @ basename ?fx) [0x0A] = None"
    by (simp add: sample_world_fields quiet_print)
  have cq: "correct_single_text quiet_stdout (normalized no_alnum same_text [0x78] [0x61]) flagging_corrector
      = Inr ([0x61], [([0x61], [0x62], 0, 1)])"
    by (simp add: sample_normalized correct_single_text_def flagging_corrector_def)
  then have co: "correct_single_text (print_error ?wa)
     (normalized no_alnum same_text (basename ?fx) [0x61]) flagging_corrector
       = Inr ([0x61], [([0x61], [0x62], 0, 1)])"
    by (simp add: basename_def sample_world_fields)
  have g: "check_grammar_with_hanlp (print_error ?wa) [0x61] ?np = Inr []"
    by (simp add: check_grammar_with_hanlp_def)
  have we: "write_error ?wa ([0x6F], [0x78]) [0x61]
      = Some (Exception [0x64, 0x65, 0x6E, 0x69, 0x65, 0x64], Inl (Exception [0x6E, 0x6F, 0x6E, 0x65]))"
    by (simp add: sample_world_def sample_fs_def)
  have "process_file no_alnum same_text ?wa ?fx [0x6F] flagging_corrector ?np
     = (Some (Exception [0x64, 0x65, 0x6E, 0x69, 0x65, 0x64]),
        ?wa\<lparr>objs := snd (convert_punctuation_to_chinese_st no_alnum
                 (clean_chapter_content same_text [0x61]
                    (split_underscore_last (splitext_root (basename ?fx)))) (objs ?wa)),
             fs := (fs ?wa)(([0x6F], [0x78]) := Inl (Exception [0x6E, 0x6F, 0x6E, 0x65]))\<rparr>)"
    using process_file_readable[OF pr r co g refl, of "[0x6F]"] we
    by (simp add: basename_def)
  then show ?thesis using r cq
    by (simp add: sample_world_fields sample_fs_def report_prefix_def)
qed

section \<open>Properties of the Batch Driver\<close>







end
